theory Spec2Isabelle
  imports Main "HOL-Library.Sublist" "HOL-Library.Word"
begin

section \<open>Shared values: events and errors\<close>

text \<open>
  The module \<^verbatim>\<open>packages/ai/src/providers/openai-websocket.ts\<close> receives its events as
  values of type \<^verbatim>\<open>unknown\<close> and inspects a few properties of them. A property is modelled by
  what the code can tell about it: absent, a string, a number, or anything else. The code
  only ever puts a number into a template literal, so a number is given by the text the
  runtime prints for it there (\<open>1006\<close> for the close code 1006).
\<close>

type_synonym byte = "8 word"

datatype jsprop = Absent | Str string | Num string | Other

text \<open>
  The payload of a message event, by the cases \<^verbatim>\<open>decodeWebSocketData\<close> tells apart: a string,
  an \<^verbatim>\<open>ArrayBuffer\<close>, a view (buffer, byteOffset, byteLength), an object with an
  \<^verbatim>\<open>arrayBuffer\<close> method (the bytes are what its promise is fulfilled with), anything else.
\<close>

datatype wsdata =
    DString string
  | DArrayBuffer "byte list"
  | DView "byte list" nat nat
  | DBlob "byte list"
  | DOther

record ws_event =
  ev_message :: jsprop
  ev_code :: jsprop
  ev_reason :: jsprop
  ev_data :: "wsdata option"

text \<open>An event is \<open>None\<close> when it is falsy or not an object.\<close>

type_synonym event = "ws_event option"

text \<open>Every error of the module is \<^verbatim>\<open>new Error(message)\<close>.\<close>

datatype error = Error string

text \<open>
  \<^verbatim>\<open>String.prototype.trim\<close> on the code units below 256: tab, line feed, vertical tab,
  form feed, carriage return, space and no-break space are white space.
\<close>

definition js_space :: "char \<Rightarrow> bool" where
  "js_space c = (of_char c \<in> {9, 10, 11, 12, 13, 32, 160 :: nat})"

definition js_trim :: "string \<Rightarrow> string" where
  "js_trim s = dropWhile js_space (rev (dropWhile js_space (rev s)))"

definition extractWebSocketError :: "event \<Rightarrow> error" where
  "extractWebSocketError event =
     (case event of
        None \<Rightarrow> Error ''WebSocket error''
      | Some e \<Rightarrow>
          (case ev_message e of
             Str m \<Rightarrow> if m \<noteq> [] then Error m else Error ''WebSocket error''
           | _ \<Rightarrow> Error ''WebSocket error''))"

definition extractWebSocketCloseError :: "event \<Rightarrow> error" where
  "extractWebSocketCloseError event =
     (case event of
        None \<Rightarrow> Error ''WebSocket closed''
      | Some e \<Rightarrow>
          (let codeText = (case ev_code e of Num c \<Rightarrow> '' '' @ c | _ \<Rightarrow> []);
               reasonText = (case ev_reason e of
                               Str r \<Rightarrow> if r \<noteq> [] then '' '' @ r else []
                             | _ \<Rightarrow> [])
           in Error (js_trim (''WebSocket closed'' @ codeText @ reasonText))))"

section \<open>The session cache and the acquisition protocol\<close>

text \<open>
  \<^verbatim>\<open>CachedWebSocketConnection\<close> objects are compared by identity and mutated through
  closures, so they live in a heap indexed by references; the cache maps a session id to a
  reference. Transports are names of sockets; \<open>readyState\<close> is what the runtime reports for a
  socket (\<open>None\<close>: no numeric \<^verbatim>\<open>readyState\<close>), and \<open>closed\<close> logs every call of
  \<^verbatim>\<open>socket.close(code, reason)\<close>. \<open>timers\<close> holds the pending timeouts with the variables
  their callback captured.
\<close>

record CachedWebSocketConnection =
  socket :: nat
  busy :: bool
  idleTimer :: "nat option"

record pool =
  websocketSessionCache :: "string \<Rightarrow> nat option"
  heap :: "nat \<Rightarrow> CachedWebSocketConnection"
  next_ref :: nat
  timers :: "nat \<Rightarrow> (string \<times> nat) option"
  next_timer :: nat
  readyState :: "nat \<Rightarrow> nat option"
  closed :: "(nat \<times> nat \<times> string) list"

definition isWebSocketReusable :: "pool \<Rightarrow> nat \<Rightarrow> bool" where
  "isWebSocketReusable p sock = (readyState p sock = None \<or> readyState p sock = Some 1)"

text \<open>\<^verbatim>\<open>closeWebSocketSilently\<close>: the call is made, whatever it raises is swallowed.\<close>

definition closeWebSocketSilently :: "nat \<Rightarrow> nat \<Rightarrow> string \<Rightarrow> pool \<Rightarrow> pool" where
  "closeWebSocketSilently sock c r p = p\<lparr>closed := closed p @ [(sock, c, r)]\<rparr>"

definition clearTimeout :: "nat \<Rightarrow> pool \<Rightarrow> pool" where
  "clearTimeout t p = p\<lparr>timers := (timers p)(t := None)\<rparr>"

definition cache_delete :: "string \<Rightarrow> pool \<Rightarrow> pool" where
  "cache_delete sessionId p = p\<lparr>websocketSessionCache := (websocketSessionCache p)(sessionId := None)\<rparr>"

definition set_busy :: "nat \<Rightarrow> bool \<Rightarrow> pool \<Rightarrow> pool" where
  "set_busy r b p = p\<lparr>heap := (heap p)(r := (heap p r)\<lparr>busy := b\<rparr>)\<rparr>"

definition set_idleTimer :: "nat \<Rightarrow> nat option \<Rightarrow> pool \<Rightarrow> pool" where
  "set_idleTimer r t p = p\<lparr>heap := (heap p)(r := (heap p r)\<lparr>idleTimer := t\<rparr>)\<rparr>"

definition scheduleSessionWebSocketExpiry :: "string \<Rightarrow> nat \<Rightarrow> pool \<Rightarrow> pool" where
  "scheduleSessionWebSocketExpiry sessionId r p =
     (let p1 = (case idleTimer (heap p r) of Some t \<Rightarrow> clearTimeout t p | None \<Rightarrow> p);
          t' = next_timer p1
      in set_idleTimer r (Some t')
           (p1\<lparr>timers := (timers p1)(t' \<mapsto> (sessionId, r)), next_timer := Suc t'\<rparr>))"

text \<open>
  The timeout \<open>t\<close> elapses: its callback runs with the session id and the entry it captured.
  A cleared timeout is not pending and nothing runs.
\<close>

definition timer_fires :: "nat \<Rightarrow> pool \<Rightarrow> pool" where
  "timer_fires t p =
     (case timers p t of
        None \<Rightarrow> p
      | Some (sessionId, r) \<Rightarrow>
          (let p1 = p\<lparr>timers := (timers p)(t := None)\<rparr>
           in if busy (heap p1 r) then p1
              else cache_delete sessionId
                     (closeWebSocketSilently (socket (heap p1 r)) 1000 ''idle_timeout'' p1)))"

text \<open>The four \<^verbatim>\<open>release\<close> closures of \<^verbatim>\<open>acquireWebSocket\<close>, with what each captured.\<close>

datatype release =
    ReleaseSessionless nat
  | ReleaseReused string nat
  | ReleaseOverflow nat
  | ReleaseFresh string nat

text \<open>
  \<open>keep\<close> is \<open>None\<close> when \<^verbatim>\<open>release\<close> is called with no options or without the hint;
  \<^verbatim>\<open>!keep\<close> then holds.
\<close>

fun release_call :: "release \<Rightarrow> bool option \<Rightarrow> pool \<Rightarrow> pool" where
  "release_call (ReleaseSessionless sock) keep p =
     (if keep = Some False then closeWebSocketSilently sock 1000 ''done'' p
      else closeWebSocketSilently sock 1000 ''done'' p)"
| "release_call (ReleaseReused sessionId r) keep p =
     (if keep \<noteq> Some True \<or> \<not> isWebSocketReusable p (socket (heap p r))
      then cache_delete sessionId (closeWebSocketSilently (socket (heap p r)) 1000 ''done'' p)
      else scheduleSessionWebSocketExpiry sessionId r (set_busy r False p))"
| "release_call (ReleaseOverflow sock) keep p = closeWebSocketSilently sock 1000 ''done'' p"
| "release_call (ReleaseFresh sessionId r) keep p =
     (if keep \<noteq> Some True \<or> \<not> isWebSocketReusable p (socket (heap p r))
      then
        (let p1 = closeWebSocketSilently (socket (heap p r)) 1000 ''done'' p;
             p2 = (case idleTimer (heap p1 r) of Some t \<Rightarrow> clearTimeout t p1 | None \<Rightarrow> p1)
         in if websocketSessionCache p2 sessionId = Some r then cache_delete sessionId p2 else p2)
      else scheduleSessionWebSocketExpiry sessionId r (set_busy r False p))"

text \<open>
  \<^verbatim>\<open>acquireWebSocket\<close> runs in two parts around \<^verbatim>\<open>await connectWebSocket(...)\<close>: the lookup,
  up to the await, decides how the call continues; the second part runs when the connection
  attempt has settled, with its result (an error, or the new socket). Other calls may run
  between the two. The reuse branch returns without connecting.
\<close>

datatype plan = PlanSessionless | PlanReuse string nat | PlanOverflow | PlanFresh string

definition acquire_lookup :: "string option \<Rightarrow> pool \<Rightarrow> pool \<times> plan" where
  "acquire_lookup sessionId p =
     (case sessionId of
        None \<Rightarrow> (p, PlanSessionless)
      | Some sid \<Rightarrow>
          if sid = [] then (p, PlanSessionless)
          else
            (case websocketSessionCache p sid of
               None \<Rightarrow> (p, PlanFresh sid)
             | Some r \<Rightarrow>
                 (let p1 = (case idleTimer (heap p r) of
                              Some t \<Rightarrow> set_idleTimer r None (clearTimeout t p)
                            | None \<Rightarrow> p)
                  in if \<not> busy (heap p1 r) \<and> isWebSocketReusable p1 (socket (heap p1 r))
                     then (set_busy r True p1, PlanReuse sid r)
                     else if busy (heap p1 r) then (p1, PlanOverflow)
                     else if \<not> isWebSocketReusable p1 (socket (heap p1 r))
                     then (cache_delete sid
                             (closeWebSocketSilently (socket (heap p1 r)) 1000 ''done'' p1),
                           PlanFresh sid)
                     else (p1, PlanFresh sid))))"

type_synonym handle = "nat \<times> release"

definition acquire_finish :: "plan \<Rightarrow> error + nat \<Rightarrow> pool \<Rightarrow> pool \<times> (error + handle)" where
  "acquire_finish pl conn p =
     (case pl of
        PlanReuse sid r \<Rightarrow> (p, Inr (socket (heap p r), ReleaseReused sid r))
      | PlanSessionless \<Rightarrow>
          (case conn of Inl e \<Rightarrow> (p, Inl e) | Inr sock \<Rightarrow> (p, Inr (sock, ReleaseSessionless sock)))
      | PlanOverflow \<Rightarrow>
          (case conn of Inl e \<Rightarrow> (p, Inl e) | Inr sock \<Rightarrow> (p, Inr (sock, ReleaseOverflow sock)))
      | PlanFresh sid \<Rightarrow>
          (case conn of
             Inl e \<Rightarrow> (p, Inl e)
           | Inr sock \<Rightarrow>
               (let r = next_ref p
                in (p\<lparr>heap := (heap p)(r := \<lparr>socket = sock, busy = True, idleTimer = None\<rparr>),
                      next_ref := Suc r,
                      websocketSessionCache := (websocketSessionCache p)(sid \<mapsto> r)\<rparr>,
                    Inr (sock, ReleaseFresh sid r)))))"

text \<open>The whole call, when nothing else runs while the connection is being established.\<close>

definition acquireWebSocket :: "string option \<Rightarrow> error + nat \<Rightarrow> pool \<Rightarrow> pool \<times> (error + handle)" where
  "acquireWebSocket sessionId conn p =
     acquire_finish (snd (acquire_lookup sessionId p)) conn (fst (acquire_lookup sessionId p))"

definition empty_pool :: pool where
  "empty_pool =
     \<lparr>websocketSessionCache = (\<lambda>_. None),
      heap = (\<lambda>_. \<lparr>socket = 0, busy = False, idleTimer = None\<rparr>),
      next_ref = 0, timers = (\<lambda>_. None), next_timer = 0,
      readyState = (\<lambda>_. None), closed = []\<rparr>"

section \<open>Establishing a connection\<close>

text \<open>
  The promise executor of \<^verbatim>\<open>connectWebSocket\<close>, after the socket was constructed. The state
  holds the \<^verbatim>\<open>settled\<close> flag, which of the four listeners are registered, and the calls made
  so far to \<^verbatim>\<open>resolve\<close>, \<^verbatim>\<open>reject\<close> and \<^verbatim>\<open>socket.close\<close>, in order.
  \<open>close_raises\<close> says whether the transport's \<^verbatim>\<open>close\<close> raises: the abort branch calls
  it unguarded, before \<^verbatim>\<open>reject\<close>.
\<close>

datatype effect = Resolve | Reject error | SocketClose nat string

record connecting =
  settled :: bool
  on_open :: bool
  on_error :: bool
  on_close :: bool
  on_abort :: bool
  close_raises :: bool
  effects :: "effect list"











text \<open>
  The state when the executor returns: the three socket listeners are registered, and the
  abort listener when a cancellation signal was passed.
\<close>

definition listeners_added :: "bool \<Rightarrow> bool \<Rightarrow> connecting" where
  "listeners_added has_signal raises =
     \<lparr>settled = False, on_open = True, on_error = True, on_close = True,
      on_abort = has_signal, close_raises = raises, effects = []\<rparr>"

text \<open>
  \<^verbatim>\<open>connectWebSocket\<close> before the listeners: no constructor in the runtime is an error
  thrown at once; a constructor that throws rejects the promise, with no listener registered.
\<close>

datatype construction = NoConstructor | ConstructorThrows error | Constructed

definition connectWebSocket :: "construction \<Rightarrow> bool \<Rightarrow> bool \<Rightarrow> error + connecting" where
  "connectWebSocket ctor has_signal raises =
     (case ctor of
        NoConstructor \<Rightarrow> Inl (Error ''WebSocket transport is not available in this runtime'')
      | ConstructorThrows e \<Rightarrow>
          Inr \<lparr>settled = False, on_open = False, on_error = False, on_close = False,
               on_abort = False, close_raises = raises, effects = [Reject e]\<rparr>
      | Constructed \<Rightarrow> Inr (listeners_added has_signal raises))"

section \<open>The event stream decoder\<close>

text \<open>
  \<^verbatim>\<open>JSON.parse\<close> and \<^verbatim>\<open>TextDecoder.decode\<close> belong to the runtime and are parameters of the
  model (\<open>parse\<close>, \<open>None\<close> when it throws, and \<open>utf8\<close>). A parsed value lists the own
  properties of an object in \<open>JObject\<close>.
\<close>

datatype json =
    JNull
  | JBool bool
  | JNum int
  | JString string
  | JArray "json list"
  | JObject "(string \<times> json) list"

text \<open>
  \<^verbatim>\<open>typeof parsed.type === "string" ? parsed.type : ""\<close>; reading a property of \<^verbatim>\<open>null\<close>
  throws (\<open>None\<close>).
\<close>

fun message_type :: "json \<Rightarrow> string option" where
  "message_type JNull = None"
| "message_type (JObject props) =
     (case map_of props ''type'' of Some (JString t) \<Rightarrow> Some t | _ \<Rightarrow> Some [])"
| "message_type _ = Some []"

text \<open>The value the promise of \<^verbatim>\<open>decodeWebSocketData\<close> is fulfilled with.\<close>

fun decodeWebSocketData :: "(byte list \<Rightarrow> string) \<Rightarrow> wsdata \<Rightarrow> string option" where
  "decodeWebSocketData utf8 (DString t) = Some t"
| "decodeWebSocketData utf8 (DArrayBuffer b) = Some (utf8 b)"
| "decodeWebSocketData utf8 (DView b byteOffset byteLength) = Some (utf8 (take byteLength (drop byteOffset b)))"
| "decodeWebSocketData utf8 (DBlob b) = Some (utf8 b)"
| "decodeWebSocketData utf8 DOther = None"

text \<open>
  Where the generator stands: not started (its body runs at the first \<^verbatim>\<open>next()\<close>), stopped
  at the \<^verbatim>\<open>yield\<close>, suspended at the \<^verbatim>\<open>await\<close> of the drain loop, woken (the awaited promise
  is resolved and the loop is about to continue), or finished.
\<close>

datatype position = NotStarted | AtYield | Awaiting | Woken | Finished

text \<open>
  The variables of \<^verbatim>\<open>parseWebSocket\<close> (\<open>is_done\<close> is \<^verbatim>\<open>done\<close>, \<open>pending\<close> is whether a resolver
  is stored) and what the runtime holds for it: whether the four listeners are registered,
  \<^verbatim>\<open>signal.aborted\<close>, the texts of the \<^verbatim>\<open>onMessage\<close> calls whose \<^verbatim>\<open>await\<close> has its value and
  whose continuation has not run yet (the oldest first, as the job queue runs them), and the
  blob-like payloads whose \<^verbatim>\<open>arrayBuffer()\<close> promise is not settled yet.
\<close>

record decoder =
  queue :: "json list"
  pending :: bool
  is_done :: bool
  failed :: "error option"
  sawCompletion :: bool
  listening :: bool
  aborted :: bool
  decoding :: "string option list"
  blobs :: "byte list list"
  at :: position

definition wake :: "decoder \<Rightarrow> decoder" where
  "wake s = (if \<not> pending s then s else s\<lparr>pending := False, at := Woken\<rparr>)"

text \<open>\<^verbatim>\<open>onMessage\<close> up to its \<^verbatim>\<open>await\<close>.\<close>

definition onMessage :: "(byte list \<Rightarrow> string) \<Rightarrow> event \<Rightarrow> decoder \<Rightarrow> decoder" where
  "onMessage utf8 event s =
     (case event of
        None \<Rightarrow> s
      | Some e \<Rightarrow>
          (case ev_data e of
             None \<Rightarrow> s
           | Some (DBlob b) \<Rightarrow> s\<lparr>blobs := blobs s @ [b]\<rparr>
           | Some d \<Rightarrow> s\<lparr>decoding := decoding s @ [decodeWebSocketData utf8 d]\<rparr>))"

text \<open>\<^verbatim>\<open>onMessage\<close> after its \<^verbatim>\<open>await\<close>, with the decoded text.\<close>

definition onMessage_decoded :: "(string \<Rightarrow> json option) \<Rightarrow> string option \<Rightarrow> decoder \<Rightarrow> decoder" where
  "onMessage_decoded parse text s =
     (case text of
        None \<Rightarrow> s
      | Some t \<Rightarrow>
          if t = [] then s
          else
            (case parse t of
               None \<Rightarrow> s
             | Some parsed \<Rightarrow>
                 (case message_type parsed of
                    None \<Rightarrow> s
                  | Some ty \<Rightarrow>
                      (let s1 = (if ty = ''response.completed'' \<or> ty = ''response.done''
                                 then s\<lparr>sawCompletion := True, is_done := True\<rparr> else s)
                       in wake (s1\<lparr>queue := queue s1 @ [parsed]\<rparr>)))))"

definition onError :: "event \<Rightarrow> decoder \<Rightarrow> decoder" where
  "onError event s = wake (s\<lparr>failed := Some (extractWebSocketError event), is_done := True\<rparr>)"

definition onClose :: "event \<Rightarrow> decoder \<Rightarrow> decoder" where
  "onClose event s =
     (if sawCompletion s then wake (s\<lparr>is_done := True\<rparr>)
      else
        (let s1 = (if failed s = None then s\<lparr>failed := Some (extractWebSocketCloseError event)\<rparr>
                   else s)
         in wake (s1\<lparr>is_done := True\<rparr>)))"

definition onAbort :: "decoder \<Rightarrow> decoder" where
  "onAbort s = wake (s\<lparr>failed := Some (Error ''Request was aborted''), is_done := True\<rparr>)"

datatype gen_result = Yield json | Return | Throw error

text \<open>The \<^verbatim>\<open>finally\<close> block: the listeners are removed and the generator is finished.\<close>

definition finish :: "decoder \<Rightarrow> decoder" where
  "finish s = s\<lparr>listening := False, at := Finished\<rparr>"

text \<open>What follows the drain loop, once it is left by \<^verbatim>\<open>break\<close>.\<close>

definition after_loop :: "decoder \<Rightarrow> gen_result" where
  "after_loop s =
     (case failed s of
        Some e \<Rightarrow> Throw e
      | None \<Rightarrow>
          if \<not> sawCompletion s
          then Throw (Error ''WebSocket stream closed before response.completed'')
          else Return)"

text \<open>
  The drain loop from the head of \<^verbatim>\<open>while (true)\<close> to the next point where the generator
  stops: a \<^verbatim>\<open>yield\<close>, the \<^verbatim>\<open>await\<close> (no result yet), or the end of the body.
\<close>

definition iterate :: "decoder \<Rightarrow> decoder \<times> gen_result option" where
  "iterate s =
     (if aborted s then (finish s, Some (Throw (Error ''Request was aborted'')))
      else
        (case queue s of
           m # rest \<Rightarrow> (s\<lparr>queue := rest, at := AtYield\<rparr>, Some (Yield m))
         | [] \<Rightarrow>
             if is_done s then (finish s, Some (after_loop s))
             else (s\<lparr>pending := True, at := Awaiting\<rparr>, None)))"

text \<open>
  What can happen to a running decoder, one step at a time: the socket dispatches an event,
  the cancellation signal fires, the \<^verbatim>\<open>arrayBuffer()\<close> promise of the \<open>i\<close>-th waiting blob is
  fulfilled or rejected, the oldest decoded text is handed to the rest of \<^verbatim>\<open>onMessage\<close>,
  the consumer calls \<^verbatim>\<open>next()\<close>, the woken generator continues. A rejected read ends that
  call of \<^verbatim>\<open>onMessage\<close> (its \<^verbatim>\<open>await\<close> is outside the \<^verbatim>\<open>try\<close>), and the frame is lost.
  The consumer asks for one result at a time, as \<^verbatim>\<open>for await\<close> does: a call of
  \<^verbatim>\<open>next()\<close> while the generator is suspended or woken is not a step.
\<close>

datatype step =
    Message event
  | BlobRead nat
  | BlobFailed nat
  | Decoded
  | SocketError event
  | SocketClosed event
  | Abort
  | Next
  | Resume

definition perform :: "(byte list \<Rightarrow> string) \<Rightarrow> (string \<Rightarrow> json option) \<Rightarrow> step \<Rightarrow> decoder
    \<Rightarrow> decoder \<times> gen_result option" where
  "perform utf8 parse x s =
     (case x of
        Message event \<Rightarrow> (if listening s then onMessage utf8 event s else s, None)
      | BlobRead i \<Rightarrow>
          (if i < length (blobs s)
           then (s\<lparr>blobs := take i (blobs s) @ drop (Suc i) (blobs s),
                   decoding := decoding s @ [decodeWebSocketData utf8 (DBlob (blobs s ! i))]\<rparr>, None)
           else (s, None))
      | BlobFailed i \<Rightarrow>
          (if i < length (blobs s)
           then (s\<lparr>blobs := take i (blobs s) @ drop (Suc i) (blobs s)\<rparr>, None)
           else (s, None))
      | Decoded \<Rightarrow>
          (case decoding s of
             [] \<Rightarrow> (s, None)
           | text # rest \<Rightarrow> (onMessage_decoded parse text (s\<lparr>decoding := rest\<rparr>), None))
      | SocketError event \<Rightarrow> (if listening s then onError event s else s, None)
      | SocketClosed event \<Rightarrow> (if listening s then onClose event s else s, None)
      | Abort \<Rightarrow>
          (if listening s then onAbort (s\<lparr>aborted := True\<rparr>) else s\<lparr>aborted := True\<rparr>, None)
      | Next \<Rightarrow>
          (case at s of
             NotStarted \<Rightarrow> iterate (s\<lparr>listening := True\<rparr>)
           | AtYield \<Rightarrow> iterate s
           | _ \<Rightarrow> (s, None))
      | Resume \<Rightarrow> (if at s = Woken then iterate s else (s, None)))"

fun exec :: "(byte list \<Rightarrow> string) \<Rightarrow> (string \<Rightarrow> json option) \<Rightarrow> step list \<Rightarrow> decoder \<Rightarrow> decoder" where
  "exec utf8 parse [] s = s"
| "exec utf8 parse (x # xs) s = exec utf8 parse xs (fst (perform utf8 parse x s))"

fun outputs :: "(byte list \<Rightarrow> string) \<Rightarrow> (string \<Rightarrow> json option) \<Rightarrow> step list \<Rightarrow> decoder
    \<Rightarrow> gen_result list" where
  "outputs utf8 parse [] s = []"
| "outputs utf8 parse (x # xs) s =
     (case snd (perform utf8 parse x s) of
        None \<Rightarrow> outputs utf8 parse xs (fst (perform utf8 parse x s))
      | Some out \<Rightarrow> out # outputs utf8 parse xs (fst (perform utf8 parse x s)))"

definition parseWebSocket :: "bool \<Rightarrow> decoder" where
  "parseWebSocket already_aborted =
     \<lparr>queue = [], pending = False, is_done = False, failed = None, sawCompletion = False,
      listening = False, aborted = already_aborted, decoding = [], blobs = [], at = NotStarted\<rparr>"

section \<open>Notions used to state the properties\<close>

text \<open>
  The consumer pulls until the buffer is empty and once more, while nothing else happens:
  the first pull is the continuation of a woken generator, or a call of \<^verbatim>\<open>next()\<close>.
\<close>

definition drain :: "decoder \<Rightarrow> step list" where
  "drain s = (if at s = Woken then Resume else Next) # replicate (length (queue s)) Next"

text \<open>Results that are messages, then at most a normal end, and nothing after it.\<close>

fun ends_normally :: "gen_result list \<Rightarrow> bool" where
  "ends_normally [] = True"
| "ends_normally (Yield m # rest) = ends_normally rest"
| "ends_normally (Return # rest) = (rest = [])"
| "ends_normally (Throw e # rest) = False"

text \<open>Results that are messages, then at most the failure \<open>e\<close>, and nothing after it.\<close>

fun ends_with_failure :: "error \<Rightarrow> gen_result list \<Rightarrow> bool" where
  "ends_with_failure e [] = True"
| "ends_with_failure e (Yield m # rest) = ends_with_failure e rest"
| "ends_with_failure e (Return # rest) = False"
| "ends_with_failure e (Throw e' # rest) = (e' = e \<and> rest = [])"

fun yielded :: "gen_result list \<Rightarrow> json list" where
  "yielded [] = []"
| "yielded (Yield m # rest) = m # yielded rest"
| "yielded (Return # rest) = yielded rest"
| "yielded (Throw e # rest) = yielded rest"

text \<open>Steps other than an error event of the socket and a cancellation.\<close>

fun frame_close_or_pull :: "step \<Rightarrow> bool" where
  "frame_close_or_pull (SocketError event) = False"
| "frame_close_or_pull Abort = False"
| "frame_close_or_pull _ = True"

text \<open>The payload a step brings, when it is a message event that has one.\<close>

definition frame_payload :: "step \<Rightarrow> wsdata option" where
  "frame_payload x =
     (case x of
        Message event \<Rightarrow> (case event of Some e \<Rightarrow> ev_data e | None \<Rightarrow> None)
      | _ \<Rightarrow> None)"

definition no_blob :: "step \<Rightarrow> bool" where
  "no_blob x = (case frame_payload x of Some (DBlob b) \<Rightarrow> False | _ \<Rightarrow> True)"

text \<open>The payloads of the frames that arrive while the listeners are registered, in order.\<close>

fun heard :: "(byte list \<Rightarrow> string) \<Rightarrow> (string \<Rightarrow> json option) \<Rightarrow> step list \<Rightarrow> decoder
    \<Rightarrow> wsdata list" where
  "heard utf8 parse [] s = []"
| "heard utf8 parse (x # xs) s =
     (if listening s then (case frame_payload x of Some d \<Rightarrow> [d] | None \<Rightarrow> []) else [])
     @ heard utf8 parse xs (fst (perform utf8 parse x s))"

text \<open>The message a decoded text stands for, when it has one: a text that parses, not to \<^verbatim>\<open>null\<close>.\<close>

definition accepted :: "(string \<Rightarrow> json option) \<Rightarrow> string option \<Rightarrow> json option" where
  "accepted parse text =
     (case text of
        None \<Rightarrow> None
      | Some t \<Rightarrow>
          if t = [] then None
          else (case parse t of
                  None \<Rightarrow> None
                | Some parsed \<Rightarrow>
                    (case message_type parsed of None \<Rightarrow> None | Some ty \<Rightarrow> Some parsed)))"

definition messages_of :: "(string \<Rightarrow> json option) \<Rightarrow> string option list \<Rightarrow> json list" where
  "messages_of parse texts = List.map_filter (accepted parse) texts"

text \<open>
  What holds of every state a decoder can be in: a resolver is stored exactly while the
  generator is suspended, the listeners are registered exactly from the start of the body to
  its end, \<^verbatim>\<open>done\<close> has a cause and leaves no generator suspended, nothing is in flight
  before the start, and a cancellation heard by the listener has left its failure.
\<close>

definition consistent :: "decoder \<Rightarrow> bool" where
  "consistent s =
     ((pending s = (at s = Awaiting))
      \<and> (listening s = (at s = AtYield \<or> at s = Awaiting \<or> at s = Woken))
      \<and> (is_done s \<longrightarrow> (sawCompletion s \<or> failed s \<noteq> None) \<and> at s \<noteq> Awaiting \<and> at s \<noteq> NotStarted)
      \<and> (sawCompletion s \<longrightarrow> is_done s)
      \<and> (at s = NotStarted \<longrightarrow> decoding s = [] \<and> blobs s = [])
      \<and> (listening s \<and> aborted s \<longrightarrow> failed s \<noteq> None))"

section \<open>Sample inputs\<close>

definition pool_s1 :: pool where
  "pool_s1 = fst (acquireWebSocket (Some ''s1'') (Inr 7) empty_pool)"

definition pool_idle :: pool where
  "pool_idle = release_call (ReleaseFresh ''s1'' 0) (Some True) pool_s1"

text \<open>Two calls for a session not yet cached, both past the lookup before either connected.\<close>

definition pool_raced :: pool where
  "pool_raced = fst (acquire_finish (PlanFresh ''s1'') (Inr 8)
                   (fst (acquire_finish (PlanFresh ''s1'') (Inr 7) empty_pool)))"

text \<open>\<^verbatim>\<open>TextDecoder\<close> on bytes below 128.\<close>

definition ascii :: "byte list \<Rightarrow> string" where
  "ascii bs = map (\<lambda>b. char_of (unat b)) bs"

text \<open>\<^verbatim>\<open>JSON.parse\<close> on the texts of the examples; it throws on the others used there.\<close>

definition sample_parse :: "string \<Rightarrow> json option" where
  "sample_parse t =
     (if t = ''1'' then Some (JNum 1)
      else if t = ''2'' then Some (JNum 2)
      else if t = ''null'' then Some JNull
      else if t = ''{\"type\":\"response.completed\"}''
      then Some (JObject [(''type'', JString ''response.completed'')])
      else None)"

definition text_frame :: "string \<Rightarrow> step" where
  "text_frame t =
     Message (Some \<lparr>ev_message = Absent, ev_code = Absent, ev_reason = Absent,
                    ev_data = Some (DString t)\<rparr>)"

definition blob_frame :: "byte list \<Rightarrow> step" where
  "blob_frame b =
     Message (Some \<lparr>ev_message = Absent, ev_code = Absent, ev_reason = Absent,
                    ev_data = Some (DBlob b)\<rparr>)"

definition close_event :: "string \<Rightarrow> string \<Rightarrow> event" where
  "close_event c r = Some \<lparr>ev_message = Absent, ev_code = Num c, ev_reason = Str r, ev_data = None\<rparr>"

definition error_event :: "string \<Rightarrow> event" where
  "error_event m = Some \<lparr>ev_message = Str m, ev_code = Absent, ev_reason = Absent, ev_data = None\<rparr>"

definition completed_message :: json where
  "completed_message = JObject [(''type'', JString ''response.completed'')]"

text \<open>
  Two runs that leave one message in the buffer while the consumer is busy with the one
  before: an ordinary message, and the completion marker.
\<close>

definition steps_open :: "step list" where
  "steps_open = [Next, text_frame ''1'', Decoded, Resume, text_frame ''2'', Decoded]"

definition steps_completed :: "step list" where
  "steps_completed =
     [Next, text_frame ''1'', Decoded, Resume,
      text_frame ''{\"type\":\"response.completed\"}'', Decoded]"

definition run_open :: decoder where
  "run_open = exec ascii sample_parse steps_open (parseWebSocket False)"

definition run_completed :: decoder where
  "run_completed = exec ascii sample_parse steps_completed (parseWebSocket False)"

section \<open>The session cache: proofs\<close>

lemmas pool_defs = acquireWebSocket_def acquire_lookup_def acquire_finish_def empty_pool_def
  isWebSocketReusable_def closeWebSocketSilently_def clearTimeout_def cache_delete_def
  set_busy_def set_idleTimer_def scheduleSessionWebSocketExpiry_def timer_fires_def

lemma pool_s1_eq:
  "pool_s1 =
     \<lparr>websocketSessionCache = (\<lambda>_. None)(''s1'' \<mapsto> 0),
      heap = (\<lambda>_. \<lparr>socket = 0, busy = False, idleTimer = None\<rparr>)
               (0 := \<lparr>socket = 7, busy = True, idleTimer = None\<rparr>),
      next_ref = 1, timers = (\<lambda>_. None), next_timer = 0,
      readyState = (\<lambda>_. None), closed = []\<rparr>"
  by (simp add: pool_s1_def pool_defs)

lemma pool_idle_eq:
  "pool_idle =
     \<lparr>websocketSessionCache = (\<lambda>_. None)(''s1'' \<mapsto> 0),
      heap = (\<lambda>_. \<lparr>socket = 0, busy = False, idleTimer = None\<rparr>)
               (0 := \<lparr>socket = 7, busy = False, idleTimer = Some 0\<rparr>),
      next_ref = 1, timers = (\<lambda>_. None)(0 \<mapsto> (''s1'', 0)), next_timer = 1,
      readyState = (\<lambda>_. None), closed = []\<rparr>"
  by (simp add: pool_idle_def pool_s1_eq pool_defs)

lemma pool_raced_eq:
  "pool_raced =
     \<lparr>websocketSessionCache = (\<lambda>_. None)(''s1'' \<mapsto> 1),
      heap = (\<lambda>_. \<lparr>socket = 0, busy = False, idleTimer = None\<rparr>)
               (0 := \<lparr>socket = 7, busy = True, idleTimer = None\<rparr>,
                1 := \<lparr>socket = 8, busy = True, idleTimer = None\<rparr>),
      next_ref = 2, timers = (\<lambda>_. None), next_timer = 0,
      readyState = (\<lambda>_. None), closed = []\<rparr>"
  by (simp add: pool_raced_def pool_defs)

text \<open>
  C1 (as stated in the specification: a release without the hint keeps the connection).
  The first call for session \<open>s1\<close> returns socket 7, pooled, and its transport is reusable;
  released with no options, the socket is closed and the entry is gone from the cache.
\<close>

theorem release_without_hint_evicts:
  "snd (acquireWebSocket (Some ''s1'') (Inr 7) empty_pool) = Inr (7, ReleaseFresh ''s1'' 0)
   \<and> websocketSessionCache pool_s1 ''s1'' = Some 0
   \<and> isWebSocketReusable pool_s1 7
   \<and> websocketSessionCache (release_call (ReleaseFresh ''s1'' 0) None pool_s1) ''s1'' = None
   \<and> closed (release_call (ReleaseFresh ''s1'' 0) None pool_s1) = [(7, 1000, ''done'')]"
  by (simp add: pool_s1_def pool_defs)

text \<open>
  C1, amended. For both releases of a pooled connection (the reused entry and the newly
  cached one): a release without the hint is a release with \<open>keep = false\<close>, it closes the
  transport and a cache entry that is this connection is evicted; a release with
  \<open>keep = true\<close> of a transport that is still reusable closes nothing, leaves the cache as it
  is, marks the entry idle and arms a new expiry timer for it.
\<close>

theorem release_keep_hint:
  assumes "rel = ReleaseReused sid r \<or> rel = ReleaseFresh sid r"
  shows "release_call rel None p = release_call rel (Some False) p
     \<and> closed (release_call rel None p) = closed p @ [(socket (heap p r), 1000, ''done'')]
     \<and> (websocketSessionCache p sid = Some r \<longrightarrow>
          websocketSessionCache (release_call rel None p) sid = None)
     \<and> (isWebSocketReusable p (socket (heap p r)) \<longrightarrow>
          closed (release_call rel (Some True) p) = closed p
        \<and> websocketSessionCache (release_call rel (Some True) p) = websocketSessionCache p
        \<and> \<not> busy (heap (release_call rel (Some True) p) r)
        \<and> idleTimer (heap (release_call rel (Some True) p) r) = Some (next_timer p)
        \<and> timers (release_call rel (Some True) p) (next_timer p) = Some (sid, r))"
  using assms
  by (auto simp: pool_defs Let_def split: option.splits)

theorem release_keep_hint_witness:
  "websocketSessionCache pool_s1 ''s1'' = Some 0
   \<and> isWebSocketReusable pool_s1 (socket (heap pool_s1 0))
   \<and> release_call (ReleaseFresh ''s1'' 0) None pool_s1
       = release_call (ReleaseFresh ''s1'' 0) (Some False) pool_s1
   \<and> closed (release_call (ReleaseFresh ''s1'' 0) None pool_s1) = [(7, 1000, ''done'')]
   \<and> websocketSessionCache (release_call (ReleaseFresh ''s1'' 0) None pool_s1) ''s1'' = None
   \<and> closed (release_call (ReleaseFresh ''s1'' 0) (Some True) pool_s1) = []
   \<and> websocketSessionCache (release_call (ReleaseFresh ''s1'' 0) (Some True) pool_s1) ''s1'' = Some 0
   \<and> \<not> busy (heap (release_call (ReleaseFresh ''s1'' 0) (Some True) pool_s1) 0)
   \<and> timers (release_call (ReleaseFresh ''s1'' 0) (Some True) pool_s1) 0 = Some (''s1'', 0)"
proof -
  have h: "ReleaseFresh ''s1'' 0 = ReleaseReused ''s1'' 0 \<or> ReleaseFresh ''s1'' 0 = ReleaseFresh ''s1'' 0"
    by simp
  have c: "websocketSessionCache pool_s1 ''s1'' = Some 0"
    and u: "isWebSocketReusable pool_s1 (socket (heap pool_s1 0))"
    and n: "next_timer pool_s1 = 0" "closed pool_s1 = []" "socket (heap pool_s1 0) = 7"
    by (simp_all add: pool_s1_eq isWebSocketReusable_def)
  show ?thesis
    using release_keep_hint [OF h, of pool_s1] c u n by simp
qed

text \<open>
  C5. A session whose cached connection is busy: the lookup decides for an unpooled
  connection; it leaves the cache, the busy flag and the socket of every entry and the log of
  closed sockets as they were. When the connection attempt settles, in whatever state \<open>q\<close> the
  pool then is, the pool is not changed: the caller gets the new socket (or the error), and
  the release closes that socket whatever the hint.
\<close>

theorem busy_session_overflow:
  assumes "sid \<noteq> []" "websocketSessionCache p sid = Some r" "busy (heap p r)"
  shows "snd (acquire_lookup (Some sid) p) = PlanOverflow
     \<and> websocketSessionCache (fst (acquire_lookup (Some sid) p)) = websocketSessionCache p
     \<and> busy (heap (fst (acquire_lookup (Some sid) p)) r') = busy (heap p r')
     \<and> socket (heap (fst (acquire_lookup (Some sid) p)) r') = socket (heap p r')
     \<and> closed (fst (acquire_lookup (Some sid) p)) = closed p
     \<and> next_ref (fst (acquire_lookup (Some sid) p)) = next_ref p
     \<and> acquire_finish PlanOverflow (Inr sock) q = (q, Inr (sock, ReleaseOverflow sock))
     \<and> acquire_finish PlanOverflow (Inl e) q = (q, Inl e)
     \<and> release_call (ReleaseOverflow sock) keep q = closeWebSocketSilently sock 1000 ''done'' q"
  using assms
  by (auto simp: pool_defs Let_def split: option.splits)

theorem busy_session_overflow_witness:
  "''s1'' \<noteq> [] \<and> websocketSessionCache pool_s1 ''s1'' = Some 0 \<and> busy (heap pool_s1 0)
   \<and> acquireWebSocket (Some ''s1'') (Inr 8) pool_s1 = (pool_s1, Inr (8, ReleaseOverflow 8))
   \<and> closed (release_call (ReleaseOverflow 8) (Some True) pool_s1) = [(8, 1000, ''done'')]
   \<and> websocketSessionCache (release_call (ReleaseOverflow 8) (Some True) pool_s1) ''s1'' = Some 0"
proof -
  have h: "''s1'' \<noteq> []" "websocketSessionCache pool_s1 ''s1'' = Some 0" "busy (heap pool_s1 0)"
    by (simp_all add: pool_s1_eq)
  have l: "fst (acquire_lookup (Some ''s1'') pool_s1) = pool_s1"
    by (simp add: pool_s1_eq acquire_lookup_def)
  show ?thesis
    using h l busy_session_overflow [OF h, of 0 8 pool_s1 "Error ''refused''" "Some True"]
    by (simp add: acquireWebSocket_def closeWebSocketSilently_def pool_s1_eq)
qed

text \<open>
  C7. A pending timer fires on an entry that is not busy: the entry's socket is closed with
  reason \<open>idle_timeout\<close> and the session is removed from the cache. A lookup for a session
  whose cached entry has a timer cancels it and forgets it, so that the timer elapsing
  afterwards changes nothing. Arming a timer on an entry that has one cancels the old one and
  stores and starts a new one.
\<close>

theorem idle_expiry_timer:
  "(timers p t = Some (sid, r) \<and> \<not> busy (heap p r) \<longrightarrow>
      closed (timer_fires t p) = closed p @ [(socket (heap p r), 1000, ''idle_timeout'')]
      \<and> websocketSessionCache (timer_fires t p) sid = None)
   \<and> (sid \<noteq> [] \<and> websocketSessionCache p sid = Some r \<and> idleTimer (heap p r) = Some t \<longrightarrow>
      timers (fst (acquire_lookup (Some sid) p)) t = None
      \<and> idleTimer (heap (fst (acquire_lookup (Some sid) p)) r) = None
      \<and> timer_fires t (fst (acquire_lookup (Some sid) p)) = fst (acquire_lookup (Some sid) p))
   \<and> (idleTimer (heap p r) = Some t \<and> t \<noteq> next_timer p \<longrightarrow>
      timers (scheduleSessionWebSocketExpiry sid r p) t = None
      \<and> idleTimer (heap (scheduleSessionWebSocketExpiry sid r p) r) = Some (next_timer p)
      \<and> timers (scheduleSessionWebSocketExpiry sid r p) (next_timer p) = Some (sid, r))"
  by (auto simp: pool_defs Let_def split: option.splits)

theorem idle_expiry_timer_witness:
  "timers pool_idle 0 = Some (''s1'', 0) \<and> \<not> busy (heap pool_idle 0)
   \<and> websocketSessionCache pool_idle ''s1'' = Some 0 \<and> idleTimer (heap pool_idle 0) = Some 0
   \<and> 0 \<noteq> next_timer pool_idle
   \<and> closed (timer_fires 0 pool_idle) = [(7, 1000, ''idle_timeout'')]
   \<and> websocketSessionCache (timer_fires 0 pool_idle) ''s1'' = None
   \<and> timers (fst (acquire_lookup (Some ''s1'') pool_idle)) 0 = None
   \<and> closed (timer_fires 0 (fst (acquire_lookup (Some ''s1'') pool_idle))) = []
   \<and> timers (scheduleSessionWebSocketExpiry ''s1'' 0 pool_idle) 0 = None
   \<and> timers (scheduleSessionWebSocketExpiry ''s1'' 0 pool_idle) 1 = Some (''s1'', 0)"
proof -
  have h: "timers pool_idle 0 = Some (''s1'', 0)" "\<not> busy (heap pool_idle 0)"
    "websocketSessionCache pool_idle ''s1'' = Some 0" "idleTimer (heap pool_idle 0) = Some 0"
    "0 \<noteq> next_timer pool_idle" "next_timer pool_idle = 1" "''s1'' \<noteq> []"
    "closed pool_idle = []" "socket (heap pool_idle 0) = 7"
    by (simp_all add: pool_idle_eq)
  have l: "closed (fst (acquire_lookup (Some ''s1'') pool_idle)) = []"
    by (simp add: pool_idle_eq pool_defs)
  show ?thesis
    using h l idle_expiry_timer [of pool_idle 0 "''s1''" 0] by simp
qed

text \<open>
  C10. The release of a newly cached connection, when it closes (the hint is not
  \<open>keep = true\<close>, or the transport is no longer reusable): the session is deleted from the
  cache exactly when the cache maps it to the entry this release was made for, and the cache
  is otherwise unchanged; an entry \<open>r'\<close> cached later under the same session id stays.
\<close>

theorem stale_release_keeps_newer_entry:
  assumes "keep \<noteq> Some True \<or> \<not> isWebSocketReusable p (socket (heap p r))"
  shows "websocketSessionCache (release_call (ReleaseFresh sid r) keep p) =
           (if websocketSessionCache p sid = Some r then (websocketSessionCache p)(sid := None)
            else websocketSessionCache p)
       \<and> (websocketSessionCache p sid = Some r' \<and> r' \<noteq> r \<longrightarrow>
            websocketSessionCache (release_call (ReleaseFresh sid r) keep p) sid = Some r')"
  using assms
  by (auto simp: pool_defs Let_def split: option.splits)

theorem stale_release_keeps_newer_entry_witness:
  "(Some False :: bool option) \<noteq> Some True
   \<and> websocketSessionCache pool_raced ''s1'' = Some 1 \<and> (1::nat) \<noteq> 0
   \<and> websocketSessionCache (release_call (ReleaseFresh ''s1'' 0) (Some False) pool_raced) ''s1''
       = Some 1
   \<and> websocketSessionCache (release_call (ReleaseFresh ''s1'' 1) (Some False) pool_raced) ''s1''
       = None"
proof -
  have h0: "Some False \<noteq> Some True \<or> \<not> isWebSocketReusable pool_raced (socket (heap pool_raced 0))"
    and h1: "Some False \<noteq> Some True \<or> \<not> isWebSocketReusable pool_raced (socket (heap pool_raced 1))"
    by simp_all
  have c: "websocketSessionCache pool_raced ''s1'' = Some 1"
    by (simp add: pool_raced_eq)
  show ?thesis
    using c stale_release_keeps_newer_entry [OF h0, of "''s1''" 1]
      stale_release_keeps_newer_entry [OF h1, of "''s1''" 1]
    by simp
qed


section \<open>Establishing a connection: proofs\<close>






section \<open>The decoder: general facts\<close>

lemmas handler_defs = onMessage_def onMessage_decoded_def onError_def onClose_def onAbort_def
  wake_def finish_def iterate_def

lemma consistent_init: "consistent (parseWebSocket a)"
  by (simp add: consistent_def parseWebSocket_def)

lemma consistent_perform:
  assumes "consistent s"
  shows "consistent (fst (perform utf8 parse x s))"
proof (cases x)
  case (Message event)
  with assms show ?thesis
    by (auto simp: perform_def consistent_def onMessage_def split: option.splits wsdata.splits)
next
  case (BlobRead i)
  with assms show ?thesis by (auto simp: perform_def consistent_def)
next
  case (BlobFailed i)
  with assms show ?thesis by (auto simp: perform_def consistent_def)
next
  case Decoded
  with assms show ?thesis
    by (auto simp: perform_def consistent_def onMessage_decoded_def wake_def Let_def
        split: option.splits list.splits)
next
  case (SocketError event)
  with assms show ?thesis by (auto simp: perform_def consistent_def onError_def wake_def)
next
  case (SocketClosed event)
  with assms show ?thesis by (auto simp: perform_def consistent_def onClose_def wake_def Let_def)
next
  case Abort
  with assms show ?thesis by (auto simp: perform_def consistent_def onAbort_def wake_def)
next
  case Next
  with assms show ?thesis
    by (auto simp: perform_def consistent_def iterate_def finish_def after_loop_def
        split: position.splits list.splits option.splits)
next
  case Resume
  with assms show ?thesis
    by (auto simp: perform_def consistent_def iterate_def finish_def after_loop_def
        split: position.splits list.splits option.splits)
qed

lemma consistent_exec: "consistent s \<Longrightarrow> consistent (exec utf8 parse xs s)"
  by (induction xs arbitrary: s) (simp_all add: consistent_perform)

lemma reachable_consistent: "consistent (exec utf8 parse xs (parseWebSocket a))"
  by (simp add: consistent_exec consistent_init)

lemma finished_silent:
  "consistent s \<Longrightarrow> at s = Finished \<Longrightarrow> outputs utf8 parse xs s = []"
proof (induction xs arbitrary: s)
  case Nil
  then show ?case by simp
next
  case (Cons x xs)
  have c: "consistent (fst (perform utf8 parse x s))"
    using Cons.prems(1) by (rule consistent_perform)
  have "snd (perform utf8 parse x s) = None \<and> at (fst (perform utf8 parse x s)) = Finished"
    using Cons.prems
    by (cases x)
       (auto simp: perform_def consistent_def handler_defs Let_def
          split: option.splits list.splits wsdata.splits)
  with c Cons.IH show ?case by simp
qed

lemma pulls_at_yield:
  "at s = AtYield \<Longrightarrow> \<not> aborted s \<Longrightarrow> is_done s \<Longrightarrow>
   outputs utf8 parse (replicate (Suc (length (queue s))) Next) s
     = map Yield (queue s) @ [after_loop s]"
proof (induction "queue s" arbitrary: s)
  case Nil
  then show ?case
    by (simp add: perform_def iterate_def flip: Nil.hyps)
next
  case (Cons m rest)
  let ?s' = "s\<lparr>queue := rest, at := AtYield\<rparr>"
  have step: "perform utf8 parse Next s = (?s', Some (Yield m))"
    using Cons.prems Cons.hyps(2) [symmetric] by (simp add: perform_def iterate_def)
  have "outputs utf8 parse (replicate (Suc (length (queue ?s'))) Next) ?s'
          = map Yield (queue ?s') @ [after_loop ?s']"
    using Cons.prems by (intro Cons.hyps(1)) simp_all
  then show ?case
    using step Cons.hyps(2) [symmetric] by (simp add: after_loop_def)
qed

lemma drain_outputs:
  assumes "at s = AtYield \<or> at s = Woken" "\<not> aborted s" "is_done s"
  shows "outputs utf8 parse (drain s) s = map Yield (queue s) @ [after_loop s]"
proof (cases "at s = Woken")
  case False
  with assms show ?thesis
    using pulls_at_yield [of s utf8 parse] by (simp add: drain_def)
next
  case True
  show ?thesis
  proof (cases "queue s")
    case Nil
    with True assms show ?thesis by (simp add: drain_def perform_def iterate_def)
  next
    case (Cons m rest)
    let ?s' = "s\<lparr>queue := rest, at := AtYield\<rparr>"
    have step: "perform utf8 parse Resume s = (?s', Some (Yield m))"
      using True assms Cons by (simp add: perform_def iterate_def)
    have "outputs utf8 parse (replicate (Suc (length (queue ?s'))) Next) ?s'
            = map Yield (queue ?s') @ [after_loop ?s']"
      using assms by (intro pulls_at_yield) simp_all
    then show ?thesis
      using step True Cons by (simp add: drain_def after_loop_def)
  qed
qed

lemma aborted_drain:
  assumes "consistent s" "at s = AtYield \<or> at s = Woken" "aborted s"
  shows "outputs utf8 parse (drain s) s = [Throw (Error ''Request was aborted'')]"
proof -
  let ?first = "if at s = Woken then Resume else Next"
  have step: "perform utf8 parse ?first s = (finish s, Some (Throw (Error ''Request was aborted'')))"
    using assms by (auto simp: perform_def iterate_def)
  have "consistent (finish s)"
    using consistent_perform [OF assms(1), of utf8 parse ?first] step by simp
  then have "outputs utf8 parse (replicate (length (queue s)) Next) (finish s) = []"
    by (rule finished_silent) (simp add: finish_def)
  with step show ?thesis by (simp add: drain_def)
qed


lemma yielded_after_loop: "yielded [after_loop s] = []"
  by (simp add: after_loop_def split: option.splits)

lemma messages_of_Nil: "messages_of parse [] = []"
  by (simp add: messages_of_def)

lemma messages_of_Cons:
  "messages_of parse (t # ts) =
     (case accepted parse t of None \<Rightarrow> [] | Some m \<Rightarrow> [m]) @ messages_of parse ts"
  by (simp add: messages_of_def split: option.splits)

lemma messages_of_append:
  "messages_of parse (ts @ us) = messages_of parse ts @ messages_of parse us"
  by (induction ts) (simp_all add: messages_of_Nil messages_of_Cons)

lemma onMessage_decoded_queue:
  "queue (onMessage_decoded parse t s) =
     queue s @ (case accepted parse t of None \<Rightarrow> [] | Some m \<Rightarrow> [m])"
  by (simp add: onMessage_decoded_def accepted_def wake_def Let_def split: option.splits)

lemma onMessage_decoded_in_flight:
  "decoding (onMessage_decoded parse t s) = decoding s"
  "blobs (onMessage_decoded parse t s) = blobs s"
  by (simp_all add: onMessage_decoded_def wake_def Let_def split: option.splits)

lemma perform_accounting:
  assumes "blobs s = []" "no_blob x"
  shows "blobs (fst (perform utf8 parse x s)) = []
    \<and> yielded (case snd (perform utf8 parse x s) of None \<Rightarrow> [] | Some out \<Rightarrow> [out])
        @ queue (fst (perform utf8 parse x s))
        @ messages_of parse (decoding (fst (perform utf8 parse x s)))
      = queue s @ messages_of parse (decoding s)
        @ messages_of parse (map (decodeWebSocketData utf8)
            (if listening s then (case frame_payload x of Some d \<Rightarrow> [d] | None \<Rightarrow> []) else []))"
proof (cases x)
  case (Message event)
  with assms show ?thesis
    by (auto simp: perform_def onMessage_def frame_payload_def no_blob_def messages_of_append
          messages_of_Nil messages_of_Cons
        split: option.splits wsdata.splits)
next
  case (BlobRead i)
  with assms show ?thesis by (simp add: perform_def frame_payload_def messages_of_Nil)
next
  case (BlobFailed i)
  with assms show ?thesis by (simp add: perform_def frame_payload_def messages_of_Nil)
next
  case Decoded
  with assms show ?thesis
    by (auto simp: perform_def frame_payload_def messages_of_Nil messages_of_Cons
          onMessage_decoded_queue onMessage_decoded_in_flight
        split: list.splits)
next
  case (SocketError event)
  with assms show ?thesis
    by (simp add: perform_def frame_payload_def messages_of_Nil onError_def wake_def)
next
  case (SocketClosed event)
  with assms show ?thesis
    by (simp add: perform_def frame_payload_def messages_of_Nil onClose_def wake_def Let_def)
next
  case Abort
  with assms show ?thesis
    by (simp add: perform_def frame_payload_def messages_of_Nil onAbort_def wake_def)
next
  case Next
  with assms show ?thesis
    by (auto simp: perform_def frame_payload_def messages_of_Nil iterate_def finish_def
          yielded_after_loop
        split: position.splits list.splits)
next
  case Resume
  with assms show ?thesis
    by (auto simp: perform_def frame_payload_def messages_of_Nil iterate_def finish_def
          yielded_after_loop
        split: position.splits list.splits)
qed

lemma yielded_append: "yielded (os @ ps) = yielded os @ yielded ps"
  by (induction os rule: yielded.induct) simp_all

lemma exec_accounting:
  "blobs s = [] \<Longrightarrow> list_all no_blob xs \<Longrightarrow>
   yielded (outputs utf8 parse xs s) @ queue (exec utf8 parse xs s)
     @ messages_of parse (decoding (exec utf8 parse xs s))
   = queue s @ messages_of parse (decoding s)
     @ messages_of parse (map (decodeWebSocketData utf8) (heard utf8 parse xs s))"
proof (induction xs arbitrary: s)
  case Nil
  then show ?case by (simp add: messages_of_Nil)
next
  case (Cons x xs)
  let ?s1 = "fst (perform utf8 parse x s)"
  let ?o1 = "case snd (perform utf8 parse x s) of None \<Rightarrow> [] | Some out \<Rightarrow> [out]"
  let ?h1 = "if listening s then (case frame_payload x of Some d \<Rightarrow> [d] | None \<Rightarrow> []) else []"
  from Cons.prems have nb: "no_blob x" and rest: "list_all no_blob xs" by simp_all
  have one: "blobs ?s1 = []"
    and acc: "yielded ?o1 @ queue ?s1 @ messages_of parse (decoding ?s1)
        = queue s @ messages_of parse (decoding s)
          @ messages_of parse (map (decodeWebSocketData utf8) ?h1)"
    using perform_accounting [OF Cons.prems(1) nb, of utf8 parse] by simp_all
  have ih: "yielded (outputs utf8 parse xs ?s1) @ queue (exec utf8 parse xs ?s1)
       @ messages_of parse (decoding (exec utf8 parse xs ?s1))
     = queue ?s1 @ messages_of parse (decoding ?s1)
       @ messages_of parse (map (decodeWebSocketData utf8) (heard utf8 parse xs ?s1))"
    using Cons.IH [OF one rest] .
  have outs: "outputs utf8 parse (x # xs) s = ?o1 @ outputs utf8 parse xs ?s1"
    by (simp split: option.splits)
  have "yielded (outputs utf8 parse (x # xs) s) @ queue (exec utf8 parse (x # xs) s)
       @ messages_of parse (decoding (exec utf8 parse (x # xs) s))
     = yielded ?o1 @ (yielded (outputs utf8 parse xs ?s1) @ queue (exec utf8 parse xs ?s1)
       @ messages_of parse (decoding (exec utf8 parse xs ?s1)))"
    by (simp only: outs yielded_append exec.simps append_assoc)
  also have "\<dots> = (yielded ?o1 @ queue ?s1 @ messages_of parse (decoding ?s1))
       @ messages_of parse (map (decodeWebSocketData utf8) (heard utf8 parse xs ?s1))"
    by (simp only: ih append_assoc)
  also have "\<dots> = queue s @ messages_of parse (decoding s)
       @ messages_of parse (map (decodeWebSocketData utf8) (?h1 @ heard utf8 parse xs ?s1))"
    by (simp only: acc append_assoc map_append messages_of_append)
  finally show ?case by simp
qed

lemma completed_perform:
  assumes "consistent s" "sawCompletion s" "failed s = None" "\<not> aborted s"
    "frame_close_or_pull x"
  shows "sawCompletion (fst (perform utf8 parse x s))
    \<and> failed (fst (perform utf8 parse x s)) = None
    \<and> \<not> aborted (fst (perform utf8 parse x s))
    \<and> (snd (perform utf8 parse x s) = None
        \<or> (\<exists>m. snd (perform utf8 parse x s) = Some (Yield m))
        \<or> (snd (perform utf8 parse x s) = Some Return \<and> at (fst (perform utf8 parse x s)) = Finished))"
proof (cases x)
  case (Message event)
  with assms show ?thesis
    by (auto simp: perform_def onMessage_def split: option.splits wsdata.splits)
next
  case (BlobRead i)
  with assms show ?thesis by (simp add: perform_def)
next
  case (BlobFailed i)
  with assms show ?thesis by (simp add: perform_def)
next
  case Decoded
  with assms show ?thesis
    by (auto simp: perform_def onMessage_decoded_def wake_def Let_def
        split: list.splits option.splits)
next
  case (SocketError event)
  with assms show ?thesis by simp
next
  case (SocketClosed event)
  with assms show ?thesis by (simp add: perform_def onClose_def wake_def)
next
  case Abort
  with assms show ?thesis by simp
next
  case Next
  with assms show ?thesis
    by (auto simp: perform_def consistent_def iterate_def finish_def after_loop_def
        split: position.splits list.splits)
next
  case Resume
  with assms show ?thesis
    by (auto simp: perform_def consistent_def iterate_def finish_def after_loop_def
        split: position.splits list.splits)
qed

lemma completed_exec:
  "consistent s \<Longrightarrow> sawCompletion s \<Longrightarrow> failed s = None \<Longrightarrow> \<not> aborted s \<Longrightarrow>
   list_all frame_close_or_pull xs \<Longrightarrow>
   ends_normally (outputs utf8 parse xs s)
   \<and> sawCompletion (exec utf8 parse xs s) \<and> failed (exec utf8 parse xs s) = None
   \<and> \<not> aborted (exec utf8 parse xs s)"
proof (induction xs arbitrary: s)
  case Nil
  then show ?case by simp
next
  case (Cons x xs)
  let ?s1 = "fst (perform utf8 parse x s)"
  from Cons.prems have bx: "frame_close_or_pull x" and rest: "list_all frame_close_or_pull xs"
    by simp_all
  have c1: "consistent ?s1" using Cons.prems(1) by (rule consistent_perform)
  have st: "sawCompletion ?s1" "failed ?s1 = None" "\<not> aborted ?s1"
    and out: "snd (perform utf8 parse x s) = None
        \<or> (\<exists>m. snd (perform utf8 parse x s) = Some (Yield m))
        \<or> (snd (perform utf8 parse x s) = Some Return \<and> at ?s1 = Finished)"
    using completed_perform [OF Cons.prems(1-4) bx, of utf8 parse] by simp_all
  have ih: "ends_normally (outputs utf8 parse xs ?s1)
     \<and> sawCompletion (exec utf8 parse xs ?s1) \<and> failed (exec utf8 parse xs ?s1) = None
     \<and> \<not> aborted (exec utf8 parse xs ?s1)"
    using Cons.IH [OF c1 st rest] .
  from out show ?case
  proof (elim disjE exE conjE)
    assume "snd (perform utf8 parse x s) = None"
    with ih show ?thesis by simp
  next
    fix m assume "snd (perform utf8 parse x s) = Some (Yield m)"
    with ih show ?thesis by simp
  next
    assume r: "snd (perform utf8 parse x s) = Some Return" and f: "at ?s1 = Finished"
    have "outputs utf8 parse xs ?s1 = []" using c1 f by (rule finished_silent)
    with r ih show ?thesis by simp
  qed
qed

lemma failed_perform:
  assumes "consistent s" "failed s = Some e" "is_done s" "\<not> aborted s"
    "frame_close_or_pull x"
  shows "failed (fst (perform utf8 parse x s)) = Some e
    \<and> is_done (fst (perform utf8 parse x s))
    \<and> \<not> aborted (fst (perform utf8 parse x s))
    \<and> (snd (perform utf8 parse x s) = None
        \<or> (\<exists>m. snd (perform utf8 parse x s) = Some (Yield m))
        \<or> (snd (perform utf8 parse x s) = Some (Throw e)
            \<and> at (fst (perform utf8 parse x s)) = Finished))"
proof (cases x)
  case (Message event)
  with assms show ?thesis
    by (auto simp: perform_def onMessage_def split: option.splits wsdata.splits)
next
  case (BlobRead i)
  with assms show ?thesis by (simp add: perform_def)
next
  case (BlobFailed i)
  with assms show ?thesis by (simp add: perform_def)
next
  case Decoded
  with assms show ?thesis
    by (auto simp: perform_def onMessage_decoded_def wake_def Let_def
        split: list.splits option.splits)
next
  case (SocketError event)
  with assms show ?thesis by simp
next
  case (SocketClosed event)
  with assms show ?thesis by (simp add: perform_def onClose_def wake_def)
next
  case Abort
  with assms show ?thesis by simp
next
  case Next
  with assms show ?thesis
    by (auto simp: perform_def consistent_def iterate_def finish_def after_loop_def
        split: position.splits list.splits)
next
  case Resume
  with assms show ?thesis
    by (auto simp: perform_def consistent_def iterate_def finish_def after_loop_def
        split: position.splits list.splits)
qed

lemma failed_exec:
  "consistent s \<Longrightarrow> failed s = Some e \<Longrightarrow> is_done s \<Longrightarrow> \<not> aborted s \<Longrightarrow>
   list_all frame_close_or_pull xs \<Longrightarrow>
   ends_with_failure e (outputs utf8 parse xs s)
   \<and> failed (exec utf8 parse xs s) = Some e \<and> is_done (exec utf8 parse xs s)
   \<and> \<not> aborted (exec utf8 parse xs s)"
proof (induction xs arbitrary: s)
  case Nil
  then show ?case by simp
next
  case (Cons x xs)
  let ?s1 = "fst (perform utf8 parse x s)"
  from Cons.prems have bx: "frame_close_or_pull x" and rest: "list_all frame_close_or_pull xs"
    by simp_all
  have c1: "consistent ?s1" using Cons.prems(1) by (rule consistent_perform)
  have st: "failed ?s1 = Some e" "is_done ?s1" "\<not> aborted ?s1"
    and out: "snd (perform utf8 parse x s) = None
        \<or> (\<exists>m. snd (perform utf8 parse x s) = Some (Yield m))
        \<or> (snd (perform utf8 parse x s) = Some (Throw e) \<and> at ?s1 = Finished)"
    using failed_perform [OF Cons.prems(1-4) bx, of utf8 parse] by simp_all
  have ih: "ends_with_failure e (outputs utf8 parse xs ?s1)
     \<and> failed (exec utf8 parse xs ?s1) = Some e \<and> is_done (exec utf8 parse xs ?s1)
     \<and> \<not> aborted (exec utf8 parse xs ?s1)"
    using Cons.IH [OF c1 st rest] .
  from out show ?case
  proof (elim disjE exE conjE)
    assume "snd (perform utf8 parse x s) = None"
    with ih show ?thesis by simp
  next
    fix m assume "snd (perform utf8 parse x s) = Some (Yield m)"
    with ih show ?thesis by simp
  next
    assume r: "snd (perform utf8 parse x s) = Some (Throw e)" and f: "at ?s1 = Finished"
    have "outputs utf8 parse xs ?s1 = []" using c1 f by (rule finished_silent)
    with r ih show ?thesis by simp
  qed
qed

lemma done_not_finished:
  "consistent s \<Longrightarrow> is_done s \<Longrightarrow> at s \<noteq> Finished \<Longrightarrow> at s = AtYield \<or> at s = Woken"
  by (cases "at s") (simp_all add: consistent_def)

section \<open>The decoder: the properties\<close>

lemmas run_defs = perform_def handler_defs after_loop_def parseWebSocket_def sample_parse_def
  text_frame_def blob_frame_def close_event_def error_event_def

lemma run_open_eq:
  "run_open =
     \<lparr>queue = [JNum 2], pending = False, is_done = False, failed = None, sawCompletion = False,
      listening = True, aborted = False, decoding = [], blobs = [], at = AtYield\<rparr>"
  by (simp add: run_open_def steps_open_def run_defs)

lemma run_completed_eq:
  "run_completed =
     \<lparr>queue = [completed_message], pending = False, is_done = True, failed = None,
      sawCompletion = True, listening = True, aborted = False, decoding = [], blobs = [],
      at = AtYield\<rparr>"
  by (simp add: run_completed_def steps_completed_def completed_message_def run_defs)

lemmas step_defs = perform_def handler_defs after_loop_def parseWebSocket_def sample_parse_def
  text_frame_def blob_frame_def

lemma close_error_1000:
  "extractWebSocketCloseError (close_event ''1000'' []) = Error ''WebSocket closed 1000''"
  by code_simp

lemma error_boom: "extractWebSocketError (error_event ''boom'') = Error ''boom''"
  by code_simp

lemma close_error_1006:
  "extractWebSocketCloseError (close_event ''1006'' ''gone'') = Error ''WebSocket closed 1006 gone''"
  by code_simp




text \<open>
  C3 (as stated in the specification: after completion a close ends the sequence without
  error, and a failure captured from a close is surfaced later). First run: the completion
  marker is buffered, an error event and then the close event arrive before the consumer
  pulls again; the consumer gets the marker and then the error of the error event. Second
  run: a close event arrives with no completion seen and no failure captured, then the
  request is cancelled; the consumer gets the cancellation error, not the close failure.
\<close>

theorem close_not_the_last_word:
  "outputs ascii sample_parse
     [Next, text_frame ''1'', Decoded, Resume,
      text_frame ''{\"type\":\"response.completed\"}'', Decoded,
      SocketError (error_event ''boom''), SocketClosed (close_event ''1000'' []), Next, Next]
     (parseWebSocket False)
   = [Yield (JNum 1), Yield (JObject [(''type'', JString ''response.completed'')]),
      Throw (Error ''boom'')]
   \<and> outputs ascii sample_parse
     [Next, text_frame ''1'', Decoded, Resume,
      SocketClosed (close_event ''1006'' ''gone''), Abort, Next]
     (parseWebSocket False)
   = [Yield (JNum 1), Throw (Error ''Request was aborted'')]"
  by (simp add: step_defs close_error_1000 close_error_1006 error_boom)

text \<open>
  C3, amended. A close event reaches a running decoder (its listeners are registered), in
  any state a run can lead to, and any frames, decoding steps, close events and pulls follow
  it (no error event, no cancellation). If a completion marker was seen, the close captures
  no failure; and when none was captured before, the consumer gets messages only, then at
  most the normal end and nothing after it, and draining the buffer ends normally. If no
  completion marker was seen and no failure was captured, the failure made from the close
  event (code and reason) is captured and stays; the consumer gets messages only, then at
  most this failure and nothing after it, and draining the buffer ends with this failure.
  The close event itself leaves the buffer as it is.
\<close>

theorem close_event_observed:
  assumes "s = exec utf8 parse before (parseWebSocket a)" "listening s"
    and "list_all frame_close_or_pull after"
    and "s' = fst (perform utf8 parse (SocketClosed event) s)"
    and "s'' = exec utf8 parse after s'"
  shows "queue s' = queue s
      \<and> (sawCompletion s \<longrightarrow>
            failed s' = failed s
          \<and> (failed s = None \<longrightarrow>
               ends_normally (outputs utf8 parse after s')
             \<and> failed s'' = None
             \<and> (at s'' \<noteq> Finished \<longrightarrow>
                  outputs utf8 parse (drain s'') s'' = map Yield (queue s'') @ [Return])))
      \<and> (\<not> sawCompletion s \<and> failed s = None \<longrightarrow>
            failed s' = Some (extractWebSocketCloseError event)
          \<and> ends_with_failure (extractWebSocketCloseError event) (outputs utf8 parse after s')
          \<and> failed s'' = Some (extractWebSocketCloseError event)
          \<and> (at s'' \<noteq> Finished \<longrightarrow>
               outputs utf8 parse (drain s'') s''
                 = map Yield (queue s'') @ [Throw (extractWebSocketCloseError event)]))"
proof -
  let ?e = "extractWebSocketCloseError event"
  have c: "consistent s" using assms(1) by (simp add: reachable_consistent)
  have eq: "s' = onClose event s" using assms(2,4) by (simp add: perform_def)
  have c': "consistent s'" unfolding assms(4) using c by (rule consistent_perform)
  have c'': "consistent s''" unfolding assms(5) using c' by (rule consistent_exec)
  have q: "queue s' = queue s" "is_done s'" "aborted s' = aborted s"
    unfolding eq by (simp_all add: onClose_def wake_def Let_def)
  have na: "\<not> aborted s'" if "failed s = None"
    using c assms(2) that q(3) by (auto simp: consistent_def)
  have completed: "failed s' = failed s" "sawCompletion s'" if "sawCompletion s"
    using that unfolding eq by (simp_all add: onClose_def wake_def)
  have normal: "ends_normally (outputs utf8 parse after s') \<and> failed s'' = None
      \<and> (at s'' \<noteq> Finished \<longrightarrow>
            outputs utf8 parse (drain s'') s'' = map Yield (queue s'') @ [Return])"
    if sc: "sawCompletion s" and fn: "failed s = None"
  proof -
    have f': "failed s' = None" using completed(1) [OF sc] fn by simp
    have main: "ends_normally (outputs utf8 parse after s')
        \<and> sawCompletion s'' \<and> failed s'' = None \<and> \<not> aborted s''"
      unfolding assms(5)
      using c' completed(2) [OF sc] f' na [OF fn] assms(3) by (rule completed_exec)
    have "outputs utf8 parse (drain s'') s'' = map Yield (queue s'') @ [Return]"
      if nf: "at s'' \<noteq> Finished"
    proof -
      have d: "is_done s''" using c'' main by (simp add: consistent_def)
      have "outputs utf8 parse (drain s'') s'' = map Yield (queue s'') @ [after_loop s'']"
        using done_not_finished [OF c'' d nf] main d by (intro drain_outputs) simp_all
      then show ?thesis using main by (simp add: after_loop_def)
    qed
    with main show ?thesis by simp
  qed
  have premature: "failed s' = Some ?e \<and> ends_with_failure ?e (outputs utf8 parse after s')
      \<and> failed s'' = Some ?e
      \<and> (at s'' \<noteq> Finished \<longrightarrow>
            outputs utf8 parse (drain s'') s'' = map Yield (queue s'') @ [Throw ?e])"
    if ns: "\<not> sawCompletion s" and fn: "failed s = None"
  proof -
    have f': "failed s' = Some ?e"
      using ns fn unfolding eq by (simp add: onClose_def wake_def Let_def)
    have main: "ends_with_failure ?e (outputs utf8 parse after s')
        \<and> failed s'' = Some ?e \<and> is_done s'' \<and> \<not> aborted s''"
      unfolding assms(5)
      using c' f' q(2) na [OF fn] assms(3) by (rule failed_exec)
    have "outputs utf8 parse (drain s'') s'' = map Yield (queue s'') @ [Throw ?e]"
      if nf: "at s'' \<noteq> Finished"
    proof -
      have d: "is_done s''" using main by simp
      have "outputs utf8 parse (drain s'') s'' = map Yield (queue s'') @ [after_loop s'']"
        using done_not_finished [OF c'' d nf] main by (intro drain_outputs) simp_all
      then show ?thesis using main by (simp add: after_loop_def)
    qed
    with f' main show ?thesis by simp
  qed
  show ?thesis using q(1) completed(1) normal premature by blast
qed

theorem close_event_observed_witness:
  "listening run_open \<and> \<not> sawCompletion run_open \<and> failed run_open = None
   \<and> list_all frame_close_or_pull [text_frame ''1'', Decoded, Next]
   \<and> outputs ascii sample_parse [text_frame ''1'', Decoded, Next]
        (fst (perform ascii sample_parse (SocketClosed (close_event ''1006'' ''gone'')) run_open))
       = [Yield (JNum 2)]
   \<and> outputs ascii sample_parse [Next, Next]
        (exec ascii sample_parse [text_frame ''1'', Decoded, Next]
          (fst (perform ascii sample_parse (SocketClosed (close_event ''1006'' ''gone'')) run_open)))
       = [Yield (JNum 1), Throw (Error ''WebSocket closed 1006 gone'')]
   \<and> listening run_completed \<and> sawCompletion run_completed \<and> failed run_completed = None
   \<and> outputs ascii sample_parse [Next, Next]
        (exec ascii sample_parse [text_frame ''1'', Decoded, Next]
          (fst (perform ascii sample_parse (SocketClosed (close_event ''1006'' ''gone''))
                 run_completed)))
       = [Yield (JNum 1), Return]"
proof -
  let ?ev = "close_event ''1006'' ''gone''"
  let ?after = "[text_frame ''1'', Decoded, Next]"
  let ?o' = "fst (perform ascii sample_parse (SocketClosed ?ev) run_open)"
  let ?c' = "fst (perform ascii sample_parse (SocketClosed ?ev) run_completed)"
  have ro: "run_open = exec ascii sample_parse steps_open (parseWebSocket False)"
    by (simp add: run_open_def)
  have rc: "run_completed = exec ascii sample_parse steps_completed (parseWebSocket False)"
    by (simp add: run_completed_def)
  have h: "listening run_open" "listening run_completed" "list_all frame_close_or_pull ?after"
    by (simp_all add: run_open_eq run_completed_eq text_frame_def)
  have so: "\<not> sawCompletion run_open" "failed run_open = None"
    by (simp_all add: run_open_eq)
  have sc: "sawCompletion run_completed" "failed run_completed = None"
    by (simp_all add: run_completed_eq)
  have eo: "exec ascii sample_parse ?after ?o' =
     \<lparr>queue = [JNum 1], pending = False, is_done = True,
      failed = Some (Error ''WebSocket closed 1006 gone''), sawCompletion = False,
      listening = True, aborted = False, decoding = [], blobs = [], at = AtYield\<rparr>"
    by (simp add: run_open_eq step_defs close_error_1006)
  have ec: "exec ascii sample_parse ?after ?c' =
     \<lparr>queue = [JNum 1], pending = False, is_done = True, failed = None, sawCompletion = True,
      listening = True, aborted = False, decoding = [], blobs = [], at = AtYield\<rparr>"
    by (simp add: run_completed_eq run_defs)
  have oo: "outputs ascii sample_parse ?after ?o' = [Yield (JNum 2)]"
    by (simp add: run_open_eq step_defs close_error_1006)
  note to = close_event_observed [OF ro h(1) h(3) refl refl, of ?ev, unfolded eo]
  note tc = close_event_observed [OF rc h(2) h(3) refl refl, of ?ev, unfolded ec]
  show ?thesis
    unfolding eo ec using h so sc oo to tc
    by (simp add: drain_def close_error_1006 del: outputs.simps exec.simps)
qed

text \<open>
  C4 (as stated in the specification: also after a cancellation the buffered messages are
  yielded before the error). The message \<open>2\<close> is in the buffer when the request is
  cancelled; the next pull fails at once and the message is never yielded.
\<close>

theorem cancellation_skips_buffer:
  "queue (exec ascii sample_parse
       [Next, text_frame ''1'', Decoded, Resume, text_frame ''2'', Decoded]
       (parseWebSocket False)) = [JNum 2]
   \<and> outputs ascii sample_parse
       [Next, text_frame ''1'', Decoded, Resume, text_frame ''2'', Decoded, Abort, Next, Next]
       (parseWebSocket False)
     = [Yield (JNum 1), Throw (Error ''Request was aborted'')]"
  by (simp add: run_defs)

text \<open>
  C4, amended. An event reaches a running decoder whose request is not cancelled. After an
  error event of the socket, and after a close event that captures a failure (no completion
  seen, no failure captured before), the consumer gets every message that was in the buffer,
  in order, and then the captured failure. After a cancellation the consumer gets the
  cancellation error at its next pull and none of the buffered messages.
\<close>

theorem failure_after_buffer_unless_cancelled:
  assumes "s = exec utf8 parse before (parseWebSocket a)" "listening s" "\<not> aborted s"
  shows "outputs utf8 parse (drain (fst (perform utf8 parse (SocketError event) s)))
             (fst (perform utf8 parse (SocketError event) s))
           = map Yield (queue s) @ [Throw (extractWebSocketError event)]
      \<and> (\<not> sawCompletion s \<and> failed s = None \<longrightarrow>
            outputs utf8 parse (drain (fst (perform utf8 parse (SocketClosed event) s)))
                (fst (perform utf8 parse (SocketClosed event) s))
              = map Yield (queue s) @ [Throw (extractWebSocketCloseError event)])
      \<and> outputs utf8 parse (drain (fst (perform utf8 parse Abort s)))
             (fst (perform utf8 parse Abort s))
           = [Throw (Error ''Request was aborted'')]"
proof -
  have c: "consistent s" using assms(1) by (simp add: reachable_consistent)
  have err: "outputs utf8 parse (drain (fst (perform utf8 parse (SocketError event) s)))
             (fst (perform utf8 parse (SocketError event) s))
           = map Yield (queue s) @ [Throw (extractWebSocketError event)]"
  proof -
    let ?s' = "fst (perform utf8 parse (SocketError event) s)"
    have s': "?s' = onError event s" using assms(2) by (simp add: perform_def)
    have pos: "at ?s' = AtYield \<or> at ?s' = Woken"
      using c assms(2) unfolding s' by (auto simp: onError_def consistent_def wake_def)
    have flags: "is_done ?s'" "\<not> aborted ?s'" "queue ?s' = queue s"
      "after_loop ?s' = Throw (extractWebSocketError event)"
      using assms(3) unfolding s' by (simp_all add: onError_def wake_def after_loop_def)
    show ?thesis
      using drain_outputs [OF pos flags(2) flags(1), of utf8 parse] flags(3,4) by simp
  qed
  have cls: "outputs utf8 parse (drain (fst (perform utf8 parse (SocketClosed event) s)))
                (fst (perform utf8 parse (SocketClosed event) s))
              = map Yield (queue s) @ [Throw (extractWebSocketCloseError event)]"
    if "\<not> sawCompletion s" "failed s = None"
  proof -
    let ?s' = "fst (perform utf8 parse (SocketClosed event) s)"
    have s': "?s' = onClose event s" using assms(2) by (simp add: perform_def)
    have pos: "at ?s' = AtYield \<or> at ?s' = Woken"
      using c assms(2) unfolding s' by (auto simp: onClose_def consistent_def wake_def Let_def)
    have flags: "is_done ?s'" "\<not> aborted ?s'" "queue ?s' = queue s"
      "after_loop ?s' = Throw (extractWebSocketCloseError event)"
      using assms(3) that unfolding s'
      by (simp_all add: onClose_def wake_def after_loop_def Let_def)
    show ?thesis
      using drain_outputs [OF pos flags(2) flags(1), of utf8 parse] flags(3,4) by simp
  qed
  have abt: "outputs utf8 parse (drain (fst (perform utf8 parse Abort s)))
             (fst (perform utf8 parse Abort s))
           = [Throw (Error ''Request was aborted'')]"
  proof -
    let ?s' = "fst (perform utf8 parse Abort s)"
    have c': "consistent ?s'" using c by (rule consistent_perform)
    have s': "?s' = onAbort (s\<lparr>aborted := True\<rparr>)" using assms(2) by (simp add: perform_def)
    have pos: "at ?s' = AtYield \<or> at ?s' = Woken"
      using c assms(2) unfolding s' by (auto simp: onAbort_def consistent_def wake_def)
    have ab: "aborted ?s'" unfolding s' by (simp add: onAbort_def wake_def)
    show ?thesis using c' pos ab by (rule aborted_drain)
  qed
  show ?thesis using err cls abt by simp
qed

theorem failure_after_buffer_unless_cancelled_witness:
  "listening run_open \<and> \<not> aborted run_open \<and> \<not> sawCompletion run_open \<and> failed run_open = None
   \<and> outputs ascii sample_parse [Next, Next]
        (fst (perform ascii sample_parse (SocketError (error_event ''boom'')) run_open))
       = [Yield (JNum 2), Throw (Error ''boom'')]
   \<and> outputs ascii sample_parse [Next, Next]
        (fst (perform ascii sample_parse (SocketClosed (error_event ''boom'')) run_open))
       = [Yield (JNum 2), Throw (Error ''WebSocket closed'')]
   \<and> outputs ascii sample_parse [Next, Next] (fst (perform ascii sample_parse Abort run_open))
       = [Throw (Error ''Request was aborted'')]"
proof -
  let ?ev = "error_event ''boom''"
  have ro: "run_open = exec ascii sample_parse steps_open (parseWebSocket False)"
    by (simp add: run_open_def)
  have ho: "listening run_open" "\<not> aborted run_open"
    by (simp_all add: run_open_eq)
  have so: "\<not> sawCompletion run_open" "failed run_open = None" "queue run_open = [JNum 2]"
    by (simp_all add: run_open_eq)
  have d: "drain (fst (perform ascii sample_parse (SocketError ?ev) run_open)) = [Next, Next]"
    "drain (fst (perform ascii sample_parse (SocketClosed ?ev) run_open)) = [Next, Next]"
    "drain (fst (perform ascii sample_parse Abort run_open)) = [Next, Next]"
    by (simp_all add: drain_def run_open_eq perform_def onClose_def onError_def onAbort_def
        wake_def Let_def)
  have x: "extractWebSocketError ?ev = Error ''boom''"
    "extractWebSocketCloseError ?ev = Error ''WebSocket closed''"
    by code_simp+
  show ?thesis
    using ho so failure_after_buffer_unless_cancelled [OF ro ho, of ?ev]
    by (simp add: d x del: outputs.simps exec.simps)
qed

lemma ascii_one: "ascii [0x31] = ''1''"
  by code_simp

text \<open>
  C6. The decoder at an input where it leaves the arrival order: a frame with a blob-like
  payload arrives, then a frame with a text payload; the text is decoded while the blob is
  still being read, and its message is yielded first. The frames arrived as \<open>1\<close>, \<open>2\<close>;
  the consumer gets \<open>2\<close>, \<open>1\<close>.
\<close>

theorem blob_frame_overtaken:
  "heard ascii sample_parse
     [Next, blob_frame [0x31], text_frame ''2'', Decoded, Resume, BlobRead 0, Decoded, Next]
     (parseWebSocket False)
   = [DBlob [0x31], DString ''2'']
   \<and> messages_of sample_parse (map (decodeWebSocketData ascii) [DBlob [0x31], DString ''2''])
     = [JNum 1, JNum 2]
   \<and> outputs ascii sample_parse
     [Next, blob_frame [0x31], text_frame ''2'', Decoded, Resume, BlobRead 0, Decoded, Next]
     (parseWebSocket False)
   = [Yield (JNum 2), Yield (JNum 1)]"
  by (simp add: run_defs frame_payload_def messages_of_def accepted_def ascii_one
      List.map_filter_simps)

text \<open>
  The other payload shapes keep the order. In every run of the decoder in which no frame has
  a blob-like payload (the payloads are direct text, binary buffers and binary views, or are
  not decodable): the messages yielded so far, then the buffered ones, then those of the
  texts still to be handed over, are exactly the successfully decoded messages of the frames
  that arrived while the decoder listened, in the order of arrival. So the yielded messages
  are a prefix of them.
\<close>

lemma plain_frames_keep_arrival_order:
  assumes "list_all no_blob xs"
  shows "yielded (outputs utf8 parse xs (parseWebSocket a))
           @ queue (exec utf8 parse xs (parseWebSocket a))
           @ messages_of parse (decoding (exec utf8 parse xs (parseWebSocket a)))
         = messages_of parse
             (map (decodeWebSocketData utf8) (heard utf8 parse xs (parseWebSocket a)))
      \<and> prefix (yielded (outputs utf8 parse xs (parseWebSocket a)))
           (messages_of parse
             (map (decodeWebSocketData utf8) (heard utf8 parse xs (parseWebSocket a))))"
proof -
  have b: "blobs (parseWebSocket a) = []" by (simp add: parseWebSocket_def)
  have eq: "yielded (outputs utf8 parse xs (parseWebSocket a))
           @ queue (exec utf8 parse xs (parseWebSocket a))
           @ messages_of parse (decoding (exec utf8 parse xs (parseWebSocket a)))
         = messages_of parse
             (map (decodeWebSocketData utf8) (heard utf8 parse xs (parseWebSocket a)))"
    using exec_accounting [OF b assms, of utf8 parse]
    by (simp add: parseWebSocket_def messages_of_Nil)
  then have "prefix (yielded (outputs utf8 parse xs (parseWebSocket a)))
           (messages_of parse
             (map (decodeWebSocketData utf8) (heard utf8 parse xs (parseWebSocket a))))"
    by (metis prefixI)
  with eq show ?thesis by simp
qed

text \<open>
  C9 (as stated in the specification: a stream that ends cleanly without a completion marker
  gets the dedicated error). The socket closes with code 1000 and no message was received;
  the consumer gets the failure made from the close event, not the error
  \<open>WebSocket stream closed before response.completed\<close>.
\<close>

theorem clean_close_gives_close_failure:
  "outputs ascii sample_parse [Next, SocketClosed (close_event ''1000'' []), Resume]
     (parseWebSocket False)
   = [Throw (Error ''WebSocket closed 1000'')]"
  by (simp add: step_defs close_error_1000)

text \<open>
  C9, amended. In every state a run of the decoder can lead to: \<^verbatim>\<open>done\<close> is set only
  together with a completion marker or a captured failure; so when the drain loop is left
  with no completion marker seen (the buffer is empty, \<^verbatim>\<open>done\<close> is set, the request is not
  cancelled), a failure was captured and the consumer gets that failure; and the
  sequence ends normally only when a completion marker was seen. The decoder never ends
  silently without a completion marker.
\<close>

theorem no_silent_end:
  assumes "s = exec utf8 parse xs (parseWebSocket a)"
  shows "(is_done s \<and> \<not> sawCompletion s \<longrightarrow> failed s \<noteq> None)
      \<and> (is_done s \<and> \<not> sawCompletion s \<and> queue s = [] \<and> \<not> aborted s \<and> failed s = Some e \<longrightarrow>
           iterate s = (finish s, Some (Throw e)))
      \<and> (snd (perform utf8 parse x s) = Some Return \<longrightarrow> sawCompletion s \<and> failed s = None)"
proof -
  have c: "consistent s" using assms by (simp add: reachable_consistent)
  have cause: "failed s \<noteq> None" if "is_done s" "\<not> sawCompletion s"
    using c that by (auto simp: consistent_def)
  have thrown: "iterate s = (finish s, Some (Throw e))"
    if "is_done s" "queue s = []" "\<not> aborted s" "failed s = Some e"
    using that by (simp add: iterate_def after_loop_def)
  have it: "sawCompletion s \<and> failed s = None" if "snd (iterate s') = Some Return"
    "sawCompletion s' = sawCompletion s" "failed s' = failed s" for s'
    using that by (auto simp: iterate_def after_loop_def split: if_splits list.splits option.splits)
  have ret: "sawCompletion s \<and> failed s = None" if r: "snd (perform utf8 parse x s) = Some Return"
  proof (cases x)
    case Next
    show ?thesis
    proof (cases "at s")
      case NotStarted
      with Next r it [of "s\<lparr>listening := True\<rparr>"] show ?thesis by (simp add: perform_def)
    next
      case AtYield
      with Next r it [of s] show ?thesis by (simp add: perform_def)
    qed (use Next r in \<open>simp_all add: perform_def\<close>)
  next
    case Resume
    with r it [of s] show ?thesis by (simp add: perform_def split: if_splits)
  qed (use r in \<open>simp_all add: perform_def split: if_splits list.splits\<close>)
  show ?thesis using cause thrown ret by blast
qed

theorem no_silent_end_witness:
  "is_done (exec ascii sample_parse [Next, SocketClosed (close_event ''1000'' [])]
              (parseWebSocket False))
   \<and> \<not> sawCompletion (exec ascii sample_parse [Next, SocketClosed (close_event ''1000'' [])]
              (parseWebSocket False))
   \<and> failed (exec ascii sample_parse [Next, SocketClosed (close_event ''1000'' [])]
              (parseWebSocket False)) = Some (Error ''WebSocket closed 1000'')
   \<and> snd (iterate (exec ascii sample_parse [Next, SocketClosed (close_event ''1000'' [])]
              (parseWebSocket False))) = Some (Throw (Error ''WebSocket closed 1000''))
   \<and> snd (perform ascii sample_parse Next
            (exec ascii sample_parse [Next] run_completed)) = Some Return
   \<and> sawCompletion (exec ascii sample_parse [Next] run_completed)"
proof -
  let ?s = "exec ascii sample_parse [Next, SocketClosed (close_event ''1000'' [])]
              (parseWebSocket False)"
  let ?t = "exec ascii sample_parse [Next] run_completed"
  have es: "?s =
     \<lparr>queue = [], pending = False, is_done = True,
      failed = Some (Error ''WebSocket closed 1000''), sawCompletion = False,
      listening = True, aborted = False, decoding = [], blobs = [], at = Woken\<rparr>"
    by (simp add: step_defs close_error_1000)
  have rt: "?t = exec ascii sample_parse (steps_completed @ [Next]) (parseWebSocket False)"
    by (simp add: run_completed_def steps_completed_def)
  have et: "?t =
     \<lparr>queue = [], pending = False, is_done = True, failed = None, sawCompletion = True,
      listening = True, aborted = False, decoding = [], blobs = [], at = AtYield\<rparr>"
    by (simp add: run_completed_eq run_defs)
  have pr: "snd (perform ascii sample_parse Next ?t) = Some Return"
    unfolding et by (simp add: run_defs)
  note ts = no_silent_end [OF refl, of ascii sample_parse
      "[Next, SocketClosed (close_event ''1000'' [])]" False "Error ''WebSocket closed 1000''",
      unfolded es]
  note tt = no_silent_end [OF rt, of _ Next, THEN conjunct2, THEN conjunct2]
  show ?thesis
    using pr ts tt unfolding es by (simp add: finish_def del: exec.simps)
qed


end
